theory Spec2Isabelle
  imports Main "HOL-Library.Word" "HOL-Library.List_Lexorder"
begin

unbundle bit_operations_syntax

section \<open>Errors and files\<close>

text \<open>
  The exceptions that the client script can raise, as values. A file system lists path
  names with byte contents (the first entry for a path is the file);
  \<open>open(path, "rb")\<close> on a missing path raises \<open>FileNotFoundError\<close>.
\<close>

type_synonym byte = "8 word"
type_synonym path = string
type_synonym filesystem = "(path \<times> byte list) list"

datatype error =
    FileNotFoundError path
  | FileExistsError path
  | TypeError

section \<open>SHA-256 as used by \<open>hashlib.sha256\<close>\<close>

text \<open>
  32-bit words are natural numbers below \<open>2 ^ 32\<close>; every addition is reduced
  modulo \<open>2 ^ 32 = 4294967296\<close> explicitly.
\<close>

type_synonym u32 = nat
type_synonym hstate = "u32 \<times> u32 \<times> u32 \<times> u32 \<times> u32 \<times> u32 \<times> u32 \<times> u32"

definition add32 :: "u32 \<Rightarrow> u32 \<Rightarrow> u32" where
  "add32 a b = (a + b) mod 4294967296"

definition rotr :: "nat \<Rightarrow> u32 \<Rightarrow> u32" where
  "rotr n x = (x div 2 ^ n) OR ((x * 2 ^ (32 - n)) mod 4294967296)"

definition Ch :: "u32 \<Rightarrow> u32 \<Rightarrow> u32 \<Rightarrow> u32" where
  "Ch x y z = (x AND y) XOR ((x XOR 4294967295) AND z)"

definition Maj :: "u32 \<Rightarrow> u32 \<Rightarrow> u32 \<Rightarrow> u32" where
  "Maj x y z = (x AND y) XOR (x AND z) XOR (y AND z)"

definition Sigma0 :: "u32 \<Rightarrow> u32" where
  "Sigma0 x = rotr 2 x XOR rotr 13 x XOR rotr 22 x"

definition Sigma1 :: "u32 \<Rightarrow> u32" where
  "Sigma1 x = rotr 6 x XOR rotr 11 x XOR rotr 25 x"

definition sigma0 :: "u32 \<Rightarrow> u32" where
  "sigma0 x = rotr 7 x XOR rotr 18 x XOR (x div 2 ^ 3)"

definition sigma1 :: "u32 \<Rightarrow> u32" where
  "sigma1 x = rotr 17 x XOR rotr 19 x XOR (x div 2 ^ 10)"

definition K256 :: "u32 list" where
  "K256 = [
   1116352408, 1899447441, 3049323471, 3921009573, 961987163, 1508970993, 2453635748, 2870763221,
   3624381080, 310598401, 607225278, 1426881987, 1925078388, 2162078206, 2614888103, 3248222580,
   3835390401, 4022224774, 264347078, 604807628, 770255983, 1249150122, 1555081692, 1996064986,
   2554220882, 2821834349, 2952996808, 3210313671, 3336571891, 3584528711, 113926993, 338241895,
   666307205, 773529912, 1294757372, 1396182291, 1695183700, 1986661051, 2177026350, 2456956037,
   2730485921, 2820302411, 3259730800, 3345764771, 3516065817, 3600352804, 4094571909, 275423344,
   430227734, 506948616, 659060556, 883997877, 958139571, 1322822218, 1537002063, 1747873779,
   1955562222, 2024104815, 2227730452, 2361852424, 2428436474, 2756734187, 3204031479, 3329325298]"

definition H256 :: hstate where
  "H256 = (1779033703, 3144134277, 1013904242, 2773480762,
           1359893119, 2600822924, 528734635, 1541459225)"

text \<open>The sixteen big-endian words of a 64-byte block.\<close>

fun be_words :: "byte list \<Rightarrow> u32 list" where
  "be_words (a # b # c # d # rest) =
     (unat a * 16777216 + unat b * 65536 + unat c * 256 + unat d) # be_words rest"
| "be_words _ = []"

text \<open>
  The message schedule is kept as a sliding window of sixteen words: round \<open>t\<close> consumes
  the head \<open>W t\<close> and appends \<open>W (t + 16)\<close>.
\<close>

fun next_word :: "u32 list \<Rightarrow> u32" where
  "next_word (w0 # w1 # w2 # w3 # w4 # w5 # w6 # w7 # w8 # w9 # w10 # w11 # w12 # w13 # w14 # rest) =
     add32 (add32 (add32 (sigma1 w14) w9) (sigma0 w1)) w0"
| "next_word _ = 0"

fun round256 :: "u32 \<Rightarrow> u32 list \<times> hstate \<Rightarrow> u32 list \<times> hstate" where
  "round256 k (w, (a, b, c, d, e, f, g, h)) =
     (let t1 = add32 (add32 (add32 (add32 h (Sigma1 e)) (Ch e f g)) k) (hd w);
          t2 = add32 (Sigma0 a) (Maj a b c)
      in (tl w @ [next_word w], (add32 t1 t2, a, b, c, add32 d t1, e, f, g)))"

fun add_state :: "hstate \<Rightarrow> hstate \<Rightarrow> hstate" where
  "add_state (a, b, c, d, e, f, g, h) (a', b', c', d', e', f', g', h') =
     (add32 a a', add32 b b', add32 c c', add32 d d',
      add32 e e', add32 f f', add32 g g', add32 h h')"

definition compress :: "hstate \<Rightarrow> byte list \<Rightarrow> hstate" where
  "compress hs block = add_state hs (snd (fold round256 K256 (be_words block, hs)))"

text \<open>
  Padding for a message of \<open>n\<close> bytes: the byte \<open>0x80\<close>, zero bytes up to 56 modulo 64,
  and the bit length \<open>8 * n\<close> as eight big-endian bytes.
\<close>

definition pad :: "nat \<Rightarrow> byte list" where
  "pad n = 0x80 # replicate ((119 - n mod 64) mod 64) 0
            @ map (\<lambda>i. word_of_nat ((8 * n) div 2 ^ (8 * i) mod 256)) [7, 6, 5, 4, 3, 2, 1, 0]"

text \<open>Consume every complete 64-byte block; return the chaining value and the rest.\<close>

function absorb :: "hstate \<Rightarrow> byte list \<Rightarrow> hstate \<times> byte list" where
  "absorb hs bs =
     (if length bs < 64 then (hs, bs)
      else absorb (compress hs (take 64 bs)) (drop 64 bs))"
  by pat_completeness auto
termination
  by (relation "measure (\<lambda>(hs, bs). length bs)") auto

declare absorb.simps [simp del]

text \<open>
  The hash object: chaining value, the bytes of the incomplete block, and the number of
  bytes seen. \<open>update\<close> is \<open>h.update(data)\<close>, \<open>hexdigest\<close> is \<open>h.hexdigest()\<close>.
\<close>

record sha256_obj =
  chain :: hstate
  buf :: "byte list"
  count :: nat

definition sha256_new :: sha256_obj where
  "sha256_new = \<lparr>chain = H256, buf = [], count = 0\<rparr>"

definition update :: "sha256_obj \<Rightarrow> byte list \<Rightarrow> sha256_obj" where
  "update h data =
     (let r = absorb (chain h) (buf h @ data)
      in \<lparr>chain = fst r, buf = snd r, count = count h + length data\<rparr>)"

definition word_bytes :: "u32 \<Rightarrow> byte list" where
  "word_bytes w = [word_of_nat (w div 16777216 mod 256), word_of_nat (w div 65536 mod 256),
                   word_of_nat (w div 256 mod 256), word_of_nat (w mod 256)]"

fun state_bytes :: "hstate \<Rightarrow> byte list" where
  "state_bytes (a, b, c, d, e, f, g, h) =
     word_bytes a @ word_bytes b @ word_bytes c @ word_bytes d
     @ word_bytes e @ word_bytes f @ word_bytes g @ word_bytes h"

definition digest :: "sha256_obj \<Rightarrow> byte list" where
  "digest h = state_bytes (fst (absorb (chain h) (buf h @ pad (count h))))"

definition hexdigit :: "nat \<Rightarrow> char" where
  "hexdigit n = ''0123456789abcdef'' ! n"

definition hex_byte :: "byte \<Rightarrow> string" where
  "hex_byte b = [hexdigit (unat b div 16), hexdigit (unat b mod 16)]"

definition hex :: "byte list \<Rightarrow> string" where
  "hex bs = concat (map hex_byte bs)"

definition hexdigest :: "sha256_obj \<Rightarrow> string" where
  "hexdigest h = hex (digest h)"

text \<open>
  SHA-256 of a whole message in one step, as the standard states it: pad, cut into 64-byte
  blocks, fold the compression function over the blocks from the initial value.
\<close>

function split64 :: "byte list \<Rightarrow> byte list list" where
  "split64 bs = (if length bs < 64 then [] else take 64 bs # split64 (drop 64 bs))"
  by pat_completeness auto
termination
  by (relation "measure length") auto

declare split64.simps [simp del]

definition sha256_oneshot :: "byte list \<Rightarrow> string" where
  "sha256_oneshot m =
     hex (state_bytes (fold (\<lambda>block h. compress h block) (split64 (m @ pad (length m))) H256))"

subsection \<open>\<open>sha256_file\<close>\<close>

text \<open>
  The loop of \<open>sha256_file\<close>: \<open>rest\<close> is what the file handle has not yet returned;
  \<open>fh.read(8192)\<close> returns its first 8192 bytes (fewer at the end of the file) and an
  empty chunk ends the loop.
\<close>

function read_loop :: "sha256_obj \<Rightarrow> byte list \<Rightarrow> sha256_obj" where
  "read_loop h rest =
     (let chunk = take 8192 rest
      in if chunk = [] then h else read_loop (update h chunk) (drop 8192 rest))"
  by pat_completeness auto
termination
  by (relation "measure (\<lambda>(h, rest). length rest)") auto

declare read_loop.simps [simp del]

definition sha256_file :: "filesystem \<Rightarrow> path \<Rightarrow> error + string" where
  "sha256_file fs p =
     (case map_of fs p of
        None \<Rightarrow> Inl (FileNotFoundError p)
      | Some content \<Rightarrow> Inr (hexdigest (read_loop sha256_new content)))"

text \<open>The five bytes of \<open>b"hello"\<close>.\<close>

definition hello :: "byte list" where
  "hello = [0x68, 0x65, 0x6c, 0x6c, 0x6f]"

section \<open>Python values and \<open>json.dumps\<close>\<close>

text \<open>
  A Python string is a sequence of code points. A float is kept as what \<open>repr\<close>
  prints from: the sign, the digits of the shortest decimal string that rounds to it, and the
  position of the decimal point relative to the first digit (\<open>0.001\<close> is the digit
  \<open>1\<close> with the point at \<open>-2\<close>, \<open>0.92\<close> the digits \<open>92\<close> with
  the point at \<open>0\<close>), besides the three special values. \<open>PObject\<close> stands for
  every value that the JSON encoder has no case for (a set, bytes, an instance of a user
  class). The keys of a dict are strings; a dict lists its items in insertion order.
\<close>

type_synonym pystr = "nat list"

datatype pyfloat = Finite bool "nat list" int | NaN | PosInf | NegInf

datatype pyval =
    PNone
  | PBool bool
  | PInt int
  | PFloat pyfloat
  | PStr pystr
  | PList "pyval list"
  | PDict "(pystr \<times> pyval) list"
  | PObject

definition str :: "string \<Rightarrow> pystr" where
  "str s = map of_char s"

subsection \<open>Strings: \<open>encode_basestring_ascii\<close>\<close>

definition hex4 :: "nat \<Rightarrow> string" where
  "hex4 c = [hexdigit (c div 4096 mod 16), hexdigit (c div 256 mod 16),
             hexdigit (c div 16 mod 16), hexdigit (c mod 16)]"

definition S_CHAR :: "nat \<Rightarrow> bool" where
  "S_CHAR c = (32 \<le> c \<and> c \<le> 126 \<and> c \<noteq> 92 \<and> c \<noteq> 34)"

text \<open>
  A code point from \<open>0x10000\<close> on is written as its UTF-16 surrogate pair:
  the high surrogate is \<open>0xD800 - 0x40 + (c >> 10)\<close> and the low one
  \<open>0xDC00 + (c & 0x3FF)\<close>.
\<close>

definition ascii_escape_unichar :: "nat \<Rightarrow> string" where
  "ascii_escape_unichar c =
     CHR 0x5C #
       (if c = 92 then [CHR 0x5C]
        else if c = 34 then [CHR 0x22]
        else if c = 8 then ''b''
        else if c = 12 then ''f''
        else if c = 10 then ''n''
        else if c = 13 then ''r''
        else if c = 9 then ''t''
        else if 65536 \<le> c
          then CHR ''u'' # hex4 (55232 + c div 1024) @ CHR 0x5C # CHR ''u'' # hex4 (56320 + c mod 1024)
        else CHR ''u'' # hex4 c)"

definition escape_char :: "nat \<Rightarrow> string" where
  "escape_char c = (if S_CHAR c then [char_of c] else ascii_escape_unichar c)"

definition encode_basestring_ascii :: "pystr \<Rightarrow> string" where
  "encode_basestring_ascii s = CHR 0x22 # concat (map escape_char s) @ [CHR 0x22]"

subsection \<open>Numbers: \<open>int.__repr__\<close> and \<open>float.__repr__\<close>\<close>

definition digit_char :: "nat \<Rightarrow> char" where
  "digit_char d = char_of (48 + d)"

function str_nat :: "nat \<Rightarrow> string" where
  "str_nat n = (if n < 10 then [digit_char n] else str_nat (n div 10) @ [digit_char (n mod 10)])"
  by pat_completeness auto
termination
  by (relation "measure id") auto

declare str_nat.simps [simp del]

definition int_repr :: "int \<Rightarrow> string" where
  "int_repr i = (if i < 0 then CHR ''-'' # str_nat (nat (- i)) else str_nat (nat i))"

text \<open>The exponent as C's \<open>%+.02d\<close> prints it: a sign and at least two digits.\<close>

definition exp_str :: "int \<Rightarrow> string" where
  "exp_str e =
     (if e < 0 then CHR ''-'' else CHR ''+'') #
     (if nat \<bar>e\<bar> < 10 then CHR ''0'' # str_nat (nat \<bar>e\<bar>) else str_nat (nat \<bar>e\<bar>))"

text \<open>
  \<open>repr\<close> of a finite float switches to the exponent form when the decimal point lies at
  \<open>-4\<close> or below, or above \<open>16\<close>; otherwise the digits are laid out around the point,
  padded with zeros, and an integral value gets \<open>.0\<close>.
\<close>

definition float_digits :: "nat list \<Rightarrow> int \<Rightarrow> string" where
  "float_digits ds decpt =
     (if decpt \<le> - 4 \<or> 16 < decpt then
        digit_char (hd ds)
          # (if tl ds = [] then [] else CHR ''.'' # map digit_char (tl ds))
          @ CHR ''e'' # exp_str (decpt - 1)
      else if decpt \<le> 0 then
        ''0.'' @ replicate (nat (- decpt)) CHR ''0'' @ map digit_char ds
      else if nat decpt < length ds then
        map digit_char (take (nat decpt) ds) @ CHR ''.'' # map digit_char (drop (nat decpt) ds)
      else
        map digit_char ds @ replicate (nat decpt - length ds) CHR ''0'' @ ''.0'')"

fun float_repr :: "pyfloat \<Rightarrow> string" where
  "float_repr (Finite neg ds decpt) = (if neg then ''-'' else []) @ float_digits ds decpt"
| "float_repr NaN = ''nan''"
| "float_repr PosInf = ''inf''"
| "float_repr NegInf = ''-inf''"

text \<open>The encoder's \<open>floatstr\<close>, with \<open>allow_nan\<close> at its default \<open>True\<close>.\<close>

fun floatstr :: "pyfloat \<Rightarrow> string" where
  "floatstr NaN = ''NaN''"
| "floatstr PosInf = ''Infinity''"
| "floatstr NegInf = ''-Infinity''"
| "floatstr f = float_repr f"

subsection \<open>The encoder\<close>

fun join :: "string \<Rightarrow> string list \<Rightarrow> string" where
  "join sep [] = []"
| "join sep [x] = x"
| "join sep (x # y # ys) = x @ sep @ join sep (y # ys)"

text \<open>
  \<open>encode sort_keys item_separator key_separator\<close> is the text that the encoder builds.
  With \<open>sort_keys\<close> the items of a dict are sorted by key (code point order) first.
  For \<open>PObject\<close> the encoder calls \<open>default\<close>, which raises \<open>TypeError\<close>:
  \<open>dumps\<close> returns the text only for values without such a part.
\<close>

function (sequential) encode :: "bool \<Rightarrow> string \<Rightarrow> string \<Rightarrow> pyval \<Rightarrow> string" where
  "encode sk isep ksep PNone = ''null''"
| "encode sk isep ksep (PBool b) = (if b then ''true'' else ''false'')"
| "encode sk isep ksep (PInt i) = int_repr i"
| "encode sk isep ksep (PFloat f) = floatstr f"
| "encode sk isep ksep (PStr s) = encode_basestring_ascii s"
| "encode sk isep ksep (PList xs) =
     ''['' @ join isep (map (encode sk isep ksep) xs) @ '']''"
| "encode sk isep ksep (PDict items) =
     ''{'' @ join isep
        (map (\<lambda>(k, v). encode_basestring_ascii k @ ksep @ encode sk isep ksep v)
           (if sk then sort_key fst items else items))
      @ ''}''"
| "encode sk isep ksep PObject = []"
  by pat_completeness auto
termination
proof (relation "measure (\<lambda>(sk, isep, ksep, v). size v)")
  fix sk :: bool and isep ksep :: string and items :: "(pystr \<times> pyval) list" and x k v
  assume "x \<in> set (if sk then sort_key fst items else items)" and "(k, v) = x"
  then have "(k, v) \<in> set items"
    by (simp split: if_splits)
  then have "size v < Suc (size_list (size_prod (\<lambda>_. 0) size) items)"
    by (induction items) auto
  then show "((sk, isep, ksep, v), (sk, isep, ksep, PDict items))
             \<in> measure (\<lambda>(sk, isep, ksep, v). size v)"
    by simp
qed (auto simp: less_Suc_eq_le size_list_estimation')

text \<open>
  A value can be encoded when no part of it is a \<open>PObject\<close>. Two further ways in
  which CPython's encoder fails are outside this model: an \<open>int\<close> with more digits
  than the limit on the conversion to a string (\<open>ValueError\<close> from version 3.11 on),
  and a container that contains itself, which a value of \<open>pyval\<close> cannot be.
\<close>

fun serializable :: "pyval \<Rightarrow> bool" where
  "serializable (PList xs) = (\<forall>x \<in> set xs. serializable x)"
| "serializable (PDict items) = (\<forall>(k, v) \<in> set items. serializable v)"
| "serializable PObject = False"
| "serializable _ = True"

definition dumps :: "bool \<Rightarrow> string \<times> string \<Rightarrow> pyval \<Rightarrow> error + string" where
  "dumps sort_keys separators obj =
     (if serializable obj
      then Inr (encode sort_keys (fst separators) (snd separators) obj)
      else Inl TypeError)"

text \<open>\<open>json.dumps(payload)\<close> with the defaults, and the call made by \<open>sign_payload\<close>.\<close>

definition dumps_default :: "pyval \<Rightarrow> error + string" where
  "dumps_default obj = dumps False ('', '', '': '') obj"

definition dumps_canonical :: "pyval \<Rightarrow> error + string" where
  "dumps_canonical obj = dumps True ('','', '':'') obj"

section \<open>Claims and \<open>sign_payload\<close>\<close>

text \<open>
  The payload that \<open>submit_example\<close> builds, with its keys in the order in which the dict
  literal lists them.
\<close>

record claim =
  task_id :: pystr
  miner_id :: int
  performance :: pyfloat
  artifact_hash :: pystr
  hyperparameters :: "(pystr \<times> pyval) list"
  timestamp :: int
  nonce :: int

definition payload_of :: "claim \<Rightarrow> pyval" where
  "payload_of c = PDict
     [(str ''task_id'', PStr (task_id c)),
      (str ''miner_id'', PInt (miner_id c)),
      (str ''performance'', PFloat (performance c)),
      (str ''artifact_hash'', PStr (artifact_hash c)),
      (str ''hyperparameters'', PDict (hyperparameters c)),
      (str ''timestamp'', PInt (timestamp c)),
      (str ''nonce'', PInt (nonce c))]"

text \<open>
  \<open>str.encode()\<close> of a text of ASCII characters. The Ed25519 signing function of the
  library is an argument: a key and a message give the 64 signature bytes.
\<close>

definition ascii_bytes :: "string \<Rightarrow> byte list" where
  "ascii_bytes s = map of_char s"

type_synonym signer = "byte list \<Rightarrow> byte list \<Rightarrow> byte list"

definition sign_payload :: "signer \<Rightarrow> byte list \<Rightarrow> pyval \<Rightarrow> error + string" where
  "sign_payload sign sk payload =
     (case dumps_canonical payload of
        Inl e \<Rightarrow> Inl e
      | Inr msg \<Rightarrow> Inr (hex (sign sk (ascii_bytes msg))))"

section \<open>Building and sending a submission\<close>

text \<open>
  The script acts on a file system and on the network. The world records the files and the
  POST requests sent so far; every step returns an error or a value together with the world
  it leaves. What the script takes from outside is gathered in \<open>env\<close>: the signing
  function and key, the archive writer of \<open>zipfile\<close>, the clock, the random bytes,
  and the order in which the file system lists the entries of a directory (a rank for each
  name: \<open>os.listdir\<close> promises no order of its own).
\<close>

record request =
  url :: string
  payload_part :: string
  signature_part :: string
  artifact_part :: "byte list"

record world =
  files :: filesystem
  requests :: "request list"

record env =
  sign_fn :: signer
  sk :: "byte list"
  zip_archive :: "(string \<times> byte list) list \<Rightarrow> byte list"
  now :: int
  urandom8 :: "byte list"
  dir_rank :: "string \<Rightarrow> nat"

type_synonym 'a action = "world \<Rightarrow> (error + 'a) \<times> world"

definition bind :: "'a action \<Rightarrow> ('a \<Rightarrow> 'b action) \<Rightarrow> 'b action" where
  "bind m f w = (case m w of (Inl e, w') \<Rightarrow> (Inl e, w') | (Inr x, w') \<Rightarrow> f x w')"

definition return :: "'a \<Rightarrow> 'a action" where
  "return x w = (Inr x, w)"

definition raise :: "error \<Rightarrow> 'a action" where
  "raise e w = (Inl e, w)"

definition write_file :: "path \<Rightarrow> byte list \<Rightarrow> unit action" where
  "write_file p content w =
     (Inr (), w\<lparr>files := (p, content) # filter (\<lambda>(q, _). q \<noteq> p) (files w)\<rparr>)"

text \<open>
  \<open>os.makedirs(d, exist_ok=True)\<close> raises only when \<open>d\<close> names a file. Directories
  are not stored: a directory exists through the files below it. The entry that a path
  contributes to the listing of \<open>d\<close> is what follows \<open>d\<close> and a slash, up to the
  next slash: the name of a file in \<open>d\<close>, or of a subdirectory of \<open>d\<close>.
  \<open>os.listdir\<close> returns every entry once, in the order of the file system.
\<close>

definition makedirs :: "path \<Rightarrow> unit action" where
  "makedirs d w = (if map_of (files w) d = None then (Inr (), w) else (Inl (FileExistsError d), w))"

definition entry_of :: "path \<Rightarrow> path \<Rightarrow> string option" where
  "entry_of d p =
     (if take (length d + 1) p = d @ ''/'' \<and> drop (length d + 1) p \<noteq> []
      then Some (takeWhile (\<lambda>c. c \<noteq> CHR ''/'') (drop (length d + 1) p)) else None)"

definition listdir :: "env \<Rightarrow> path \<Rightarrow> string list action" where
  "listdir e d w =
     (Inr (sort_key (dir_rank e)
             (remdups (List.map_filter (\<lambda>(p, _). entry_of d p) (files w)))), w)"

definition read_file :: "path \<Rightarrow> byte list action" where
  "read_file p w =
     (case map_of (files w) p of None \<Rightarrow> (Inl (FileNotFoundError p), w) | Some b \<Rightarrow> (Inr b, w))"

text \<open>
  \<open>json.dump(obj, fh)\<close> writes the chunks of \<open>iterencode\<close> one by one, with the
  default separators and without sorting. When a value cannot be encoded, the chunks before
  it have been written: the opening bracket or the separator before an item of a list, the
  key and the key separator before a value of a dict. \<open>dump_chunks\<close> gives the text
  written and whether the encoder came to its end; \<open>chunk_row\<close> puts the items of a
  container in a row, up to the first one that fails.
\<close>

fun chunk_row :: "string \<Rightarrow> (string \<times> bool) list \<Rightarrow> string \<times> bool" where
  "chunk_row sep [] = ([], True)"
| "chunk_row sep [c] = c"
| "chunk_row sep (c # d # cs) =
     (if snd c then (fst c @ sep @ fst (chunk_row sep (d # cs)), snd (chunk_row sep (d # cs)))
      else (fst c, False))"

fun dump_chunks :: "pyval \<Rightarrow> string \<times> bool" where
  "dump_chunks (PList xs) =
     (let r = chunk_row '', '' (map dump_chunks xs)
      in (''['' @ fst r @ (if snd r then '']'' else []), snd r))"
| "dump_chunks (PDict items) =
     (let r = chunk_row '', ''
                (map (\<lambda>(k, v). (encode_basestring_ascii k @ '': '' @ fst (dump_chunks v),
                                 snd (dump_chunks v))) items)
      in (''{'' @ fst r @ (if snd r then ''}'' else []), snd r))"
| "dump_chunks PObject = ([], False)"
| "dump_chunks v = (encode False '', '' '': '' v, True)"

text \<open>
  The file is opened with mode \<open>"w"\<close>, which truncates it, and it is closed (and so
  flushed) when the \<open>with\<close> block is left, also by the exception.
\<close>

definition json_dump :: "pyval \<Rightarrow> path \<Rightarrow> unit action" where
  "json_dump obj p =
     bind (write_file p [])
       (\<lambda>_. bind (write_file p (ascii_bytes (fst (dump_chunks obj))))
          (\<lambda>_. if snd (dump_chunks obj) then return () else raise TypeError))"

text \<open>
  \<open>os.system("cp src dst")\<close> returns the exit status of the shell and never raises:
  \<open>0\<close> after a copy, and the status of a failed \<open>cp\<close> (exit code 1, shifted left
  by eight bits) when the source is missing.
\<close>

definition os_system_cp :: "path \<Rightarrow> path \<Rightarrow> int action" where
  "os_system_cp src dst w =
     (case map_of (files w) src of
        None \<Rightarrow> (Inr 256, w)
      | Some b \<Rightarrow> bind (write_file dst b) (\<lambda>_. return 0) w)"

text \<open>
  \<open>zipf.write(os.path.join(d, name), arcname=name)\<close> adds the file with its content; for
  a directory it adds a member without data whose name ends in a slash, and nothing of what
  lies below.
\<close>

definition zip_member :: "path \<Rightarrow> string \<Rightarrow> (string \<times> byte list) action" where
  "zip_member d name w =
     (case map_of (files w) (d @ ''/'' @ name) of
        Some b \<Rightarrow> (Inr (name, b), w)
      | None \<Rightarrow> (Inr (name @ ''/'', []), w))"

fun read_entries :: "path \<Rightarrow> string list \<Rightarrow> (string \<times> byte list) list action" where
  "read_entries d [] = return []"
| "read_entries d (name # names) =
     bind (zip_member d name)
       (\<lambda>m. bind (read_entries d names) (\<lambda>rest. return (m # rest)))"

definition tmpdir :: path where
  "tmpdir = ''pkgtmp''"

definition build_repro_package :: "env \<Rightarrow> pyval \<Rightarrow> path \<Rightarrow> unit action" where
  "build_repro_package e hyperparams out_path =
     bind (makedirs tmpdir) (\<lambda>_.
     bind (json_dump hyperparams (tmpdir @ ''/hyperparameters.json'')) (\<lambda>_.
     bind (os_system_cp ''python-client/train.py'' (tmpdir @ ''/train.py'')) (\<lambda>status.
     bind (write_file out_path []) (\<lambda>_.
     bind (listdir e tmpdir) (\<lambda>names.
     bind (read_entries tmpdir names) (\<lambda>entries.
     write_file out_path (zip_archive e entries)))))))"

definition sha256_file_action :: "path \<Rightarrow> string action" where
  "sha256_file_action p w = (sha256_file (files w) p, w)"

text \<open>\<open>int.from_bytes(bs, "big")\<close>.\<close>

definition from_bytes_big :: "byte list \<Rightarrow> int" where
  "from_bytes_big bs = foldl (\<lambda>acc b. acc * 256 + uint b) 0 bs"

definition post :: "request \<Rightarrow> unit action" where
  "post r w = (Inr (), w\<lparr>requests := requests w @ [r]\<rparr>)"

definition lift :: "error + 'a \<Rightarrow> 'a action" where
  "lift r w = (r, w)"

definition SERVER :: string where
  "SERVER = ''http://localhost:8080''"

text \<open>
  The body of \<open>submit_example\<close>, with the hyperparameters as an argument;
  \<open>submit_example\<close> itself passes the dict literal of the script.
\<close>

definition submit :: "env \<Rightarrow> (pystr \<times> pyval) list \<Rightarrow> unit action" where
  "submit e hyper =
     bind (build_repro_package e (PDict hyper) ''repro.zip'') (\<lambda>_.
     bind (sha256_file_action ''repro.zip'') (\<lambda>art_hash.
       let payload = payload_of
             \<lparr>task_id = str ''task-prod-001'', miner_id = 1,
              performance = Finite False [9, 2] 0, artifact_hash = str art_hash,
              hyperparameters = hyper, timestamp = now e,
              nonce = from_bytes_big (urandom8 e)\<rparr>
       in
     bind (lift (sign_payload (sign_fn e) (sk e) payload)) (\<lambda>signature.
     bind (lift (dumps_default payload)) (\<lambda>text.
     bind (read_file ''repro.zip'') (\<lambda>artifact.
     post \<lparr>url = SERVER @ ''/submit'', payload_part = text,
           signature_part = signature, artifact_part = artifact\<rparr>)))))"

definition hyper_example :: "(pystr \<times> pyval) list" where
  "hyper_example =
     [(str ''layers'', PList [PInt 128, PInt 64]),
      (str ''activation'', PStr (str ''relu'')),
      (str ''lr'', PFloat (Finite False [1] (- 2)))]"

definition submit_example :: "env \<Rightarrow> unit action" where
  "submit_example e = submit e hyper_example"


text \<open>An environment to run the script in: stand-ins for the library functions.\<close>

definition env0 :: env where
  "env0 = \<lparr>sign_fn = (\<lambda>k m. take 64 (k @ m)), sk = [],
           zip_archive = (\<lambda>entries. concat (map (\<lambda>(n, b). ascii_bytes n @ b) entries)),
           now = 1700000000, urandom8 = [0, 0, 0, 0, 0, 0, 0, 42], dir_rank = length\<rparr>"

text \<open>A claim with the values of the end-to-end scenario.\<close>

definition claim0 :: claim where
  "claim0 = \<lparr>task_id = str ''t1'', miner_id = 1, performance = Finite False [9, 2] 0,
     artifact_hash = str ''2cf24dba5fb0a30e26e83b2ac5b9e29e1b161e5c1fa7425e73043362938b9824'',
     hyperparameters = hyper_example, timestamp = 1700000000, nonce = 42\<rparr>"

section \<open>Well-formed values\<close>

text \<open>
  The triples that stand for a float: at least one and at most 17 decimal digits, without
  leading or trailing zeros, zero itself being the digit \<open>0\<close> with the point at 1.
\<close>

fun valid_float :: "pyfloat \<Rightarrow> bool" where
  "valid_float (Finite neg ds decpt) =
     (ds \<noteq> [] \<and> length ds \<le> 17 \<and> (\<forall>d \<in> set ds. d < 10)
      \<and> (ds = [0] \<and> decpt = 1 \<or> hd ds \<noteq> 0 \<and> last ds \<noteq> 0))"
| "valid_float _ = True"

text \<open>Classes of characters in the text of a number.\<close>

definition is_digit :: "char \<Rightarrow> bool" where
  "is_digit c = (c \<in> set ''0123456789'')"

definition num_char :: "char \<Rightarrow> bool" where
  "num_char c = (c \<in> set ''0123456789-+.e'')"

text \<open>
  A Python dict holds each key once. Two values are the same JSON data when they are equal
  atoms, lists that are the same item by item, or dicts with the same keys and the same
  data under each key, in whatever order the keys were inserted.
\<close>

fun distinct_keys :: "pyval \<Rightarrow> bool" where
  "distinct_keys (PList xs) = (\<forall>x \<in> set xs. distinct_keys x)"
| "distinct_keys (PDict items) =
     (distinct (map fst items) \<and> (\<forall>(k, v) \<in> set items. distinct_keys v))"
| "distinct_keys _ = True"

fun same_value :: "pyval \<Rightarrow> pyval \<Rightarrow> bool" where
  "same_value (PList xs) (PList ys) = list_all2 same_value xs ys"
| "same_value (PDict a) (PDict b) =
     (length a = length b
      \<and> (\<forall>(k, v) \<in> set a. case map_of b k of None \<Rightarrow> False | Some v' \<Rightarrow> same_value v v'))"
| "same_value x y = (x = y)"

text \<open>The payload of \<open>claim0\<close> as a dict built in another order, at both levels.\<close>

definition claim0_reordered :: pyval where
  "claim0_reordered = PDict
     [(str ''nonce'', PInt 42),
      (str ''hyperparameters'', PDict
         [(str ''lr'', PFloat (Finite False [1] (- 2))),
          (str ''layers'', PList [PInt 128, PInt 64]),
          (str ''activation'', PStr (str ''relu''))]),
      (str ''timestamp'', PInt 1700000000),
      (str ''artifact_hash'',
         PStr (str ''2cf24dba5fb0a30e26e83b2ac5b9e29e1b161e5c1fa7425e73043362938b9824'')),
      (str ''performance'', PFloat (Finite False [9, 2] 0)),
      (str ''task_id'', PStr (str ''t1'')),
      (str ''miner_id'', PInt 1)]"

section \<open>Properties of the content hasher\<close>

lemma replicate_numeral: "replicate (numeral k) x = x # replicate (numeral k - 1) x"
  by (simp add: numeral_eq_Suc)

lemma absorb_append:
  "absorb (fst (absorb hs a)) (snd (absorb hs a) @ b) = absorb hs (a @ b)"
proof (induction hs a rule: absorb.induct)
  case (1 hs bs)
  show ?case
  proof (cases "length bs < 64")
    case True
    then show ?thesis by (simp add: absorb.simps [of hs bs])
  next
    case False
    with 1 show ?thesis
      by (simp add: absorb.simps [of hs bs] absorb.simps [of hs "bs @ b"])
  qed
qed

lemma update_update: "update (update h a) b = update h (a @ b)"
  using absorb_append [of "chain h" "buf h @ a" b]
  by (simp add: update_def Let_def)

lemma update_new_Nil: "update sha256_new [] = sha256_new"
  by (simp add: update_def sha256_new_def absorb.simps [of _ "[]"])

lemma read_loop_update: "read_loop h rest = (if rest = [] then h else update h rest)"
proof (induction h rest rule: read_loop.induct)
  case (1 h rest)
  show ?case
  proof (cases "rest = []")
    case True
    then show ?thesis by (simp add: read_loop.simps [of h "[]"])
  next
    case False
    then have chunk: "take 8192 rest \<noteq> []" by simp
    have "read_loop h rest = read_loop (update h (take 8192 rest)) (drop 8192 rest)"
      using chunk by (simp add: read_loop.simps [of h rest] Let_def)
    also have "\<dots> = (if drop 8192 rest = [] then update h (take 8192 rest)
                      else update (update h (take 8192 rest)) (drop 8192 rest))"
      using 1 chunk by simp
    also have "\<dots> = update h rest"
      by (auto simp: update_update)
    finally show ?thesis using False by simp
  qed
qed

lemma read_loop_new: "read_loop sha256_new content = update sha256_new content"
  by (simp add: read_loop_update update_new_Nil)

lemma fold_update:
  "fold (\<lambda>c h. update h c) chunks (update h a) = update h (a @ concat chunks)"
  by (induction chunks arbitrary: a) (simp_all add: update_update)

lemma fold_update_new:
  "fold (\<lambda>c h. update h c) chunks sha256_new = update sha256_new (concat chunks)"
  using fold_update [of chunks sha256_new "[]"] by (simp add: update_new_Nil)

lemma absorb_split64:
  "fst (absorb hs bs) = fold (\<lambda>block h. compress h block) (split64 bs) hs"
proof (induction hs bs rule: absorb.induct)
  case (1 hs bs)
  then show ?case
    by (simp add: absorb.simps [of hs bs] split64.simps [of bs])
qed

lemma hexdigest_update_new: "hexdigest (update sha256_new m) = sha256_oneshot m"
proof -
  have "absorb H256 (m @ pad (length m))
        = absorb (fst (absorb H256 m)) (snd (absorb H256 m) @ pad (length m))"
    by (simp add: absorb_append)
  then show ?thesis
    by (simp add: hexdigest_def digest_def update_def sha256_new_def sha256_oneshot_def
        absorb_split64 [symmetric] Let_def)
qed


lemma length_state_bytes: "length (state_bytes s) = 32"
  by (induction s rule: state_bytes.induct) (simp add: word_bytes_def)

lemma length_hex: "length (hex bs) = 2 * length bs"
  by (induction bs) (simp_all add: hex_def hex_byte_def)

lemma hexdigit_lower: "n < 16 \<Longrightarrow> hexdigit n \<in> set ''0123456789abcdef''"
  unfolding hexdigit_def by (rule nth_mem) simp

lemma hex_byte_lower: "c \<in> set (hex_byte b) \<Longrightarrow> c \<in> set ''0123456789abcdef''"
proof -
  assume c: "c \<in> set (hex_byte b)"
  have "unat b < 256"
    using unsigned_less [of b, where ?'a = nat] by simp
  then have "unat b div 16 < 16" and "unat b mod 16 < 16"
    by simp_all
  then have "hexdigit (unat b div 16) \<in> set ''0123456789abcdef''"
    and "hexdigit (unat b mod 16) \<in> set ''0123456789abcdef''"
    by (simp_all only: hexdigit_lower)
  with c show ?thesis
    unfolding hex_byte_def by (simp only: set_simps) blast
qed

lemma hex_lower:
  assumes "c \<in> set (hex bs)"
  shows "c \<in> set ''0123456789abcdef''"
proof -
  from assms obtain b where "c \<in> set (hex_byte b)"
    unfolding hex_def by auto
  then show ?thesis by (rule hex_byte_lower)
qed

text \<open>
  C4. The digest that \<open>sha256_file\<close> computes by feeding the hash object 8192-byte
  chunks is the SHA-256 digest of the whole content hashed in one step, and feeding the
  same bytes to the hash object in any other split into chunks gives that digest too.
\<close>

theorem sha256_file_chunking:
  assumes "map_of fs p = Some content" and "concat chunks = content"
  shows "sha256_file fs p = Inr (sha256_oneshot content)
       \<and> hexdigest (fold (\<lambda>c h. update h c) chunks sha256_new) = sha256_oneshot content"
  using assms
  by (simp add: sha256_file_def read_loop_new fold_update_new hexdigest_update_new)

theorem sha256_file_chunking_witness:
  "map_of [(''repro.zip'', hello)] ''repro.zip'' = Some hello
   \<and> concat [[0x68, 0x65], [], [0x6c, 0x6c, 0x6f]] = hello
   \<and> sha256_file [(''repro.zip'', hello)] ''repro.zip'' = Inr (sha256_oneshot hello)
   \<and> hexdigest (fold (\<lambda>c h. update h c) [[0x68, 0x65], [], [0x6c, 0x6c, 0x6f]] sha256_new)
       = sha256_oneshot hello"
proof -
  have f: "map_of [(''repro.zip'', hello)] ''repro.zip'' = Some hello"
    by simp
  have c: "concat [[0x68, 0x65], [], [0x6c, 0x6c, 0x6f]] = hello"
    by (simp add: hello_def)
  show ?thesis
    using f c sha256_file_chunking
      [of "[(''repro.zip'', hello)]" "''repro.zip''" hello "[[0x68, 0x65], [], [0x6c, 0x6c, 0x6f]]"]
    by simp
qed

text \<open>
  C9. Whatever the file holds, the string that \<open>sha256_file\<close> returns (the
  \<open>artifact_hash\<close> of the payload) has exactly 64 characters, each a lowercase
  hexadecimal digit.
\<close>

theorem sha256_file_hex64:
  assumes "sha256_file fs p = Inr s"
  shows "length s = 64 \<and> (\<forall>c \<in> set s. c \<in> set ''0123456789abcdef'')"
proof -
  from assms obtain content where "s = hexdigest (read_loop sha256_new content)"
    by (auto simp: sha256_file_def split: option.splits)
  then have s: "s = hex (digest (read_loop sha256_new content))"
    by (simp add: hexdigest_def)
  have "length s = 64"
    by (simp add: s length_hex digest_def length_state_bytes)
  moreover have "\<forall>c \<in> set s. c \<in> set ''0123456789abcdef''"
    unfolding s using hex_lower by blast
  ultimately show ?thesis by simp
qed


subsection \<open>The digest of \<open>b"hello"\<close>\<close>

lemma hello_padded:
  "hello @ pad 5 =
     [104, 101, 108, 108, 111, 128, 0, 0, 0, 0, 0, 0, 0, 0, 0, 0,
      0, 0, 0, 0, 0, 0, 0, 0, 0, 0, 0, 0, 0, 0, 0, 0,
      0, 0, 0, 0, 0, 0, 0, 0, 0, 0, 0, 0, 0, 0, 0, 0,
      0, 0, 0, 0, 0, 0, 0, 0, 0, 0, 0, 0, 0, 0, 0, 40]"
  by (simp add: hello_def pad_def replicate_numeral)

lemma split64_hello: "split64 (hello @ pad 5) = [hello @ pad 5]"
  unfolding hello_padded
  by (simp add: split64.simps [of "_ # _"] split64.simps [of "[]"])

lemma compress_hello:
  "compress H256 (hello @ pad 5) =
     (754077114, 1605411598, 652753706, 3317293726, 454434396, 531055198,
      1929655138, 2475399204)"
  unfolding hello_padded
  by (simp add: compress_def K256_def H256_def add32_def rotr_def Ch_def Maj_def
      Sigma0_def Sigma1_def sigma0_def sigma1_def Let_def)

lemma hex_digest_hello:
  "hex (state_bytes (754077114, 1605411598, 652753706, 3317293726, 454434396, 531055198,
      1929655138, 2475399204))
   = ''2cf24dba5fb0a30e26e83b2ac5b9e29e1b161e5c1fa7425e73043362938b9824''"
  by (simp add: hex_def hex_byte_def hexdigit_def word_bytes_def)

lemma sha256_oneshot_hello:
  "sha256_oneshot hello = ''2cf24dba5fb0a30e26e83b2ac5b9e29e1b161e5c1fa7425e73043362938b9824''"
proof -
  have "length hello = 5" by (simp add: hello_def)
  then show ?thesis
    by (simp add: sha256_oneshot_def split64_hello compress_hello hex_digest_hello
        del: state_bytes.simps)
qed

text \<open>
  C5. \<open>sha256_file\<close> on a file that holds exactly the five bytes \<open>b"hello"\<close>
  returns \<open>2cf24dba5fb0a30e26e83b2ac5b9e29e1b161e5c1fa7425e73043362938b9824\<close>.
\<close>

theorem sha256_file_hello:
  "sha256_file ((p, hello) # fs) p
   = Inr ''2cf24dba5fb0a30e26e83b2ac5b9e29e1b161e5c1fa7425e73043362938b9824''"
  by (simp add: sha256_file_def read_loop_new hexdigest_update_new sha256_oneshot_hello)


theorem sha256_file_hex64_witness:
  "sha256_file [(''repro.zip'', hello)] ''repro.zip''
     = Inr ''2cf24dba5fb0a30e26e83b2ac5b9e29e1b161e5c1fa7425e73043362938b9824''
   \<and> length ''2cf24dba5fb0a30e26e83b2ac5b9e29e1b161e5c1fa7425e73043362938b9824'' = 64
   \<and> set ''2cf24dba5fb0a30e26e83b2ac5b9e29e1b161e5c1fa7425e73043362938b9824''
       \<subseteq> set ''0123456789abcdef''"
proof -
  have h: "sha256_file [(''repro.zip'', hello)] ''repro.zip''
             = Inr ''2cf24dba5fb0a30e26e83b2ac5b9e29e1b161e5c1fa7425e73043362938b9824''"
    by (simp add: sha256_file_def read_loop_new hexdigest_update_new sha256_oneshot_hello)
  note r = sha256_file_hex64 [OF h]
  show ?thesis
    by (rule conjI [OF h conjI [OF r [THEN conjunct1] subsetI [OF r [THEN conjunct2, THEN bspec]]]])
qed

section \<open>Evaluating the encoder\<close>

lemmas str_nat_eval =
  str_nat.simps [of "numeral k"] str_nat.simps [of "Suc 0"] str_nat.simps [of 0] for k

lemmas json_eval =
  dumps_default_def dumps_canonical_def dumps_def encode_basestring_ascii_def escape_char_def
  S_CHAR_def ascii_escape_unichar_def hex4_def hexdigit_def str_def int_repr_def str_nat_eval
  float_digits_def exp_str_def digit_char_def char_of_def bit_Suc_0_iff replicate_numeral

section \<open>Failures while a submission is built\<close>

lemmas action_defs = bind_def return_def raise_def lift_def write_file_def makedirs_def
  read_file_def json_dump_def os_system_cp_def listdir_def zip_member_def post_def
  sha256_file_action_def

lemma snd_chunk_row: "snd (chunk_row sep cs) = (\<forall>c \<in> set cs. snd c)"
  by (induction sep cs rule: chunk_row.induct) auto

lemma fst_chunk_row:
  "\<forall>c \<in> set cs. snd c \<Longrightarrow> fst (chunk_row sep cs) = join sep (map fst cs)"
  by (induction sep cs rule: chunk_row.induct) auto

text \<open>
  \<open>json.dump\<close> comes to its end exactly for the values that \<open>json.dumps\<close>
  encodes, and then it has written the text that \<open>json.dumps\<close> returns.
\<close>

lemma dump_chunks_serializable: "snd (dump_chunks v) = serializable v"
  by (induction v rule: dump_chunks.induct) (auto simp: snd_chunk_row Let_def)

lemma dump_chunks_text:
  "serializable v \<Longrightarrow> fst (dump_chunks v) = encode False '', '' '': '' v"
proof (induction v rule: dump_chunks.induct)
  case (1 xs)
  then have *: "map (\<lambda>x. fst (dump_chunks x)) xs = map (encode False '', '' '': '') xs"
    by simp
  from "1.prems" show ?case
    by (simp add: Let_def fst_chunk_row snd_chunk_row dump_chunks_serializable comp_def *)
next
  case (2 items)
  have ser: "\<forall>p \<in> set items. serializable (snd p)"
    using "2.prems" by auto
  have "fst (dump_chunks (snd p)) = encode False '', '' '': '' (snd p)" if "p \<in> set items" for p
    using "2.IH" [of p "fst p" "snd p"] ser that by simp
  then have eq: "\<forall>p \<in> set items.
      fst (dump_chunks (snd p)) = encode False '', '' '': '' (snd p)"
    by blast
  show ?case
    using ser eq
    by (simp add: Let_def fst_chunk_row snd_chunk_row dump_chunks_serializable comp_def
        case_prod_unfold cong: map_cong)
qed simp_all

lemma build_unserializable:
  assumes "\<not> serializable obj"
  shows "fst (build_repro_package e obj out w)
           = Inl (if map_of (files w) tmpdir = None then TypeError else FileExistsError tmpdir)
         \<and> requests (snd (build_repro_package e obj out w)) = requests w"
  using assms
  by (simp add: build_repro_package_def bind_def makedirs_def json_dump_def write_file_def
      raise_def dump_chunks_serializable)

text \<open>
  C8. When the hyperparameters cannot be serialized, \<open>submit_example\<close> ends with an
  error (the \<open>TypeError\<close> of \<open>json.dump\<close> in \<open>build_repro_package\<close>, unless
  \<open>os.makedirs\<close> has failed before it) and no request has been sent.
\<close>

theorem submit_unserializable:
  assumes "\<not> serializable (PDict hyper)"
  shows "fst (submit e hyper w)
           = Inl (if map_of (files w) tmpdir = None then TypeError else FileExistsError tmpdir)
         \<and> requests (snd (submit e hyper w)) = requests w"
proof -
  obtain r w' where b: "build_repro_package e (PDict hyper) ''repro.zip'' w = (r, w')"
    by (cases "build_repro_package e (PDict hyper) ''repro.zip'' w")
  from build_unserializable [OF assms, of e "''repro.zip''" w] b
  have "r = Inl (if map_of (files w) tmpdir = None then TypeError else FileExistsError tmpdir)"
    and "requests w' = requests w"
    by simp_all
  with b show ?thesis
    by (simp add: submit_def bind_def)
qed

theorem submit_unserializable_witness:
  "\<not> serializable (PDict [(str ''opt'', PObject)])
   \<and> fst (submit env0 [(str ''opt'', PObject)] \<lparr>files = [], requests = []\<rparr>) = Inl TypeError
   \<and> requests (snd (submit env0 [(str ''opt'', PObject)] \<lparr>files = [], requests = []\<rparr>)) = []"
proof -
  have h: "\<not> serializable (PDict [(str ''opt'', PObject)])"
    by simp
  show ?thesis
    using h submit_unserializable [OF h, of env0 "\<lparr>files = [], requests = []\<rparr>"]
    by (simp add: tmpdir_def)
qed

text \<open>
  C7. The claim asks that no failed step is passed over. In a file system without
  \<open>python-client/train.py\<close> the copy fails: \<open>os.system\<close> returns the status 256,
  which \<open>build_repro_package\<close> drops. \<open>submit_example\<close> still ends without an error,
  and it has sent one request, whose artifact holds \<open>hyperparameters.json\<close> alone.
\<close>

theorem submit_example_missing_train_py:
  \<open>fst (os_system_cp ''python-client/train.py'' ''pkgtmp/train.py''
          \<lparr>files = [(''pkgtmp/hyperparameters.json'', b)], requests = []\<rparr>) = Inr 256
   \<and> fst (submit_example e \<lparr>files = [], requests = []\<rparr>) = Inr ()
   \<and> map url (requests (snd (submit_example e \<lparr>files = [], requests = []\<rparr>)))
       = [''http://localhost:8080/submit'']
   \<and> map artifact_part (requests (snd (submit_example e \<lparr>files = [], requests = []\<rparr>)))
       = [zip_archive e
            [(''hyperparameters.json'',
              ascii_bytes ''{"layers": [128, 64], "activation": "relu", "lr": 0.001}'')]]\<close>
  by (simp add: submit_example_def submit_def build_repro_package_def action_defs tmpdir_def
      entry_of_def List.map_filter_simps hyper_example_def
      sha256_file_def sign_payload_def payload_of_def Let_def SERVER_def json_eval)

section \<open>The wire payload and the signed bytes\<close>

lemma sorted_payload_items:
  "sort_key fst
     [(str ''task_id'', v1), (str ''miner_id'', v2), (str ''performance'', v3),
      (str ''artifact_hash'', v4), (str ''hyperparameters'', v5), (str ''timestamp'', v6),
      (str ''nonce'', v7)]
   = [(str ''artifact_hash'', v4), (str ''hyperparameters'', v5), (str ''miner_id'', v2),
      (str ''nonce'', v7), (str ''performance'', v3), (str ''task_id'', v1),
      (str ''timestamp'', v6)]"
  by (simp add: str_def)

lemma key_text:
  \<open>encode_basestring_ascii (str ''artifact_hash'') = ''"artifact_hash"''\<close>
  \<open>encode_basestring_ascii (str ''task_id'') = ''"task_id"''\<close>
  by (simp_all add: json_eval)

lemma wire_prefix:
  \<open>take 3 (encode False '', '' '': '' (payload_of c)) = ''{"t''\<close>
  by (simp add: payload_of_def key_text)

lemma canonical_prefix:
  \<open>take 3 (encode True '','' '':'' (payload_of c)) = ''{"a''\<close>
  by (simp only: payload_of_def encode.simps if_True sorted_payload_items)
     (simp add: key_text)

text \<open>
  The first half of C10: for a claim payload the text sent as the \<open>payload\<close> part
  (\<open>json.dumps(payload)\<close>) and the text that was signed (sorted keys, compact
  separators) never have the same bytes: the first begins with the key \<open>task_id\<close>,
  the second with \<open>artifact_hash\<close>; and the message that \<open>sign_payload\<close> hands to
  the signing function is the canonical text. Against which bytes the signature verifies is
  decided by Ed25519, of which the script and this theory hold no part.
\<close>

lemma wire_not_canonical:
  assumes "dumps_default (payload_of c) = Inr wire"
    and "dumps_canonical (payload_of c) = Inr canon"
  shows "ascii_bytes wire \<noteq> ascii_bytes canon
       \<and> sign_payload sign key (payload_of c) = Inr (hex (sign key (ascii_bytes canon)))"
proof -
  from assms have w: "wire = encode False '', '' '': '' (payload_of c)"
    and c: "canon = encode True '','' '':'' (payload_of c)"
    by (auto simp: dumps_default_def dumps_canonical_def dumps_def split: if_splits)
  have "take 3 (ascii_bytes wire) = map of_char (take 3 wire)"
    and "take 3 (ascii_bytes canon) = map of_char (take 3 canon)"
    by (simp_all add: ascii_bytes_def take_map)
  then have "take 3 (ascii_bytes wire) \<noteq> take 3 (ascii_bytes canon)"
    by (simp add: w c wire_prefix canonical_prefix)
  then have "ascii_bytes wire \<noteq> ascii_bytes canon"
    by auto
  then show ?thesis
    using assms(2) by (simp add: sign_payload_def)
qed



lemma claim0_wire:
  \<open>dumps_default (payload_of claim0) = Inr ''{"task_id": "t1", "miner_id": 1, "performance": 0.92, "artifact_hash": "2cf24dba5fb0a30e26e83b2ac5b9e29e1b161e5c1fa7425e73043362938b9824", "hyperparameters": {"layers": [128, 64], "activation": "relu", "lr": 0.001}, "timestamp": 1700000000, "nonce": 42}''\<close>
  by (simp add: claim0_def payload_of_def hyper_example_def json_eval)

lemma claim0_canonical:
  \<open>dumps_canonical (payload_of claim0) = Inr ''{"artifact_hash":"2cf24dba5fb0a30e26e83b2ac5b9e29e1b161e5c1fa7425e73043362938b9824","hyperparameters":{"activation":"relu","layers":[128,64],"lr":0.001},"miner_id":1,"nonce":42,"performance":0.92,"task_id":"t1","timestamp":1700000000}''\<close>
  by (simp add: claim0_def payload_of_def hyper_example_def json_eval)

lemma wire_not_canonical_example:
  \<open>dumps_default (payload_of claim0) = Inr ''{"task_id": "t1", "miner_id": 1, "performance": 0.92, "artifact_hash": "2cf24dba5fb0a30e26e83b2ac5b9e29e1b161e5c1fa7425e73043362938b9824", "hyperparameters": {"layers": [128, 64], "activation": "relu", "lr": 0.001}, "timestamp": 1700000000, "nonce": 42}''
   \<and> dumps_canonical (payload_of claim0) = Inr ''{"artifact_hash":"2cf24dba5fb0a30e26e83b2ac5b9e29e1b161e5c1fa7425e73043362938b9824","hyperparameters":{"activation":"relu","layers":[128,64],"lr":0.001},"miner_id":1,"nonce":42,"performance":0.92,"task_id":"t1","timestamp":1700000000}''
   \<and> ascii_bytes ''{"task_id": "t1", "miner_id": 1, "performance": 0.92, "artifact_hash": "2cf24dba5fb0a30e26e83b2ac5b9e29e1b161e5c1fa7425e73043362938b9824", "hyperparameters": {"layers": [128, 64], "activation": "relu", "lr": 0.001}, "timestamp": 1700000000, "nonce": 42}''
       \<noteq> ascii_bytes ''{"artifact_hash":"2cf24dba5fb0a30e26e83b2ac5b9e29e1b161e5c1fa7425e73043362938b9824","hyperparameters":{"activation":"relu","layers":[128,64],"lr":0.001},"miner_id":1,"nonce":42,"performance":0.92,"task_id":"t1","timestamp":1700000000}''\<close>
  by (rule conjI [OF claim0_wire conjI [OF claim0_canonical
        wire_not_canonical [OF claim0_wire claim0_canonical, THEN conjunct1]]])

section \<open>The text of numbers\<close>

lemma below_10: "d < 10 \<Longrightarrow> d \<in> set [0, 1, 2, 3, 4, 5, 6, 7, 8, 9 :: nat]"
  by (simp only: set_simps insert_iff empty_iff) presburger

lemma digit_char_table:
  "list_all (\<lambda>d. digit_char d = ''0123456789'' ! d) [0, 1, 2, 3, 4, 5, 6, 7, 8, 9]"
  by (simp add: digit_char_def char_of_def bit_Suc_0_iff)

lemma digit_char_nth: "d < 10 \<Longrightarrow> digit_char d = ''0123456789'' ! d"
  using digit_char_table below_10 [of d] unfolding list_all_iff by blast

lemma is_digit_digit_char: "d < 10 \<Longrightarrow> is_digit (digit_char d)"
  unfolding is_digit_def digit_char_nth by (rule nth_mem) simp

lemma str_nat_digits: "\<forall>c \<in> set (str_nat n). is_digit c"
proof (induction n rule: str_nat.induct)
  case (1 n)
  show ?case
  proof (cases "n < 10")
    case True
    then show ?thesis
      by (simp add: str_nat.simps [of n] is_digit_digit_char)
  next
    case False
    with 1 show ?thesis
      by (simp add: str_nat.simps [of n] is_digit_digit_char)
  qed
qed

lemma str_nat_nonempty: "str_nat n \<noteq> []"
  by (simp add: str_nat.simps [of n])

lemma is_digit_num_char: "is_digit c \<Longrightarrow> num_char c"
  by (auto simp: is_digit_def num_char_def)

lemma num_char_simps [simp]:
  "num_char CHR ''-''" "num_char CHR ''+''" "num_char CHR ''.''" "num_char CHR ''e''"
  "is_digit CHR ''0''" "\<not> is_digit CHR ''e''" "\<not> is_digit CHR ''.''" "\<not> is_digit CHR ''-''"
  by (simp_all add: is_digit_def num_char_def)

lemma exp_str_chars: "\<forall>c \<in> set (exp_str e). num_char c"
  using str_nat_digits [of "nat \<bar>e\<bar>"]
  by (auto simp: exp_str_def is_digit_num_char)

lemma float_digits_positional:
  assumes "\<forall>d \<in> set ds. d < 10" and "\<not> (decpt \<le> - 4 \<or> 16 < decpt)"
  shows "\<forall>c \<in> set (float_digits ds decpt). is_digit c \<or> c = CHR ''.''"
  using assms
  by (auto simp: float_digits_def is_digit_digit_char dest: in_set_takeD in_set_dropD)

lemma float_digits_chars:
  assumes "\<forall>d \<in> set ds. d < 10" and "ds \<noteq> []"
  shows "\<forall>c \<in> set (float_digits ds decpt). num_char c"
proof (cases "decpt \<le> - 4 \<or> 16 < decpt")
  case True
  have "hd ds < 10" and "\<forall>d \<in> set (tl ds). d < 10"
    using assms by (cases ds; simp)+
  then have "is_digit (digit_char (hd ds))" and "\<forall>c \<in> set (map digit_char (tl ds)). is_digit c"
    by (simp_all add: is_digit_digit_char)
  with True exp_str_chars [of "decpt - 1"] show ?thesis
    by (auto simp: float_digits_def is_digit_num_char)
next
  case False
  with float_digits_positional [OF assms(1), of decpt] show ?thesis
    by (auto simp: is_digit_num_char)
qed

lemma float_digits_e:
  assumes "\<forall>d \<in> set ds. d < 10"
  shows "CHR ''e'' \<in> set (float_digits ds decpt) \<longleftrightarrow> decpt \<le> - 4 \<or> 16 < decpt"
proof (cases "decpt \<le> - 4 \<or> 16 < decpt")
  case True
  then show ?thesis by (simp add: float_digits_def)
next
  case False
  with float_digits_positional [OF assms, of decpt] show ?thesis
    by auto
qed

lemma digit_or_minus: "is_digit c \<or> c = CHR ''-'' \<Longrightarrow> c \<in> set ''0123456789-''"
  unfolding is_digit_def by (simp only: set_simps insert_iff empty_iff) blast

lemma int_repr_chars: "set (int_repr i) \<subseteq> set ''0123456789-''"
proof
  fix c
  assume c: "c \<in> set (int_repr i)"
  have "\<forall>c \<in> set (int_repr i). is_digit c \<or> c = CHR ''-''"
    using str_nat_digits [of "nat (- i)"] str_nat_digits [of "nat i"]
    by (simp add: int_repr_def)
  with c have "is_digit c \<or> c = CHR ''-''"
    by blast
  then show "c \<in> set ''0123456789-''"
    by (rule digit_or_minus)
qed

text \<open>
  C6, as the code has it. The canonical text of an integer is its decimal digits, after a
  minus sign when it is negative. The canonical text of a finite float is its \<open>repr\<close>:
  it is made of digits, \<open>-\<close>, \<open>+\<close>, \<open>.\<close> and \<open>e\<close> alone, so the decimal
  separator is the point whatever the locale, and it is in scientific notation exactly when
  the decimal point lies at \<open>-4\<close> or below or above \<open>16\<close>, that is for a value
  below \<open>0.0001\<close> or from \<open>1e16\<close> on.
\<close>

theorem number_rendering:
  assumes "valid_float (Finite neg ds decpt)"
  shows "encode True '','' '':'' (PFloat (Finite neg ds decpt)) = float_repr (Finite neg ds decpt)
       \<and> set (float_repr (Finite neg ds decpt)) \<subseteq> set ''0123456789-+.e''
       \<and> (CHR ''e'' \<in> set (float_repr (Finite neg ds decpt)) \<longleftrightarrow> decpt \<le> - 4 \<or> 16 < decpt)
       \<and> encode True '','' '':'' (PInt i) = int_repr i
       \<and> set (int_repr i) \<subseteq> set ''0123456789-''"
proof -
  from assms have ds: "\<forall>d \<in> set ds. d < 10" "ds \<noteq> []"
    by simp_all
  have "\<forall>c \<in> set (float_repr (Finite neg ds decpt)). num_char c"
    using float_digits_chars [OF ds, of decpt] by auto
  then have chars: "set (float_repr (Finite neg ds decpt)) \<subseteq> set ''0123456789-+.e''"
    unfolding num_char_def by blast
  have e: "CHR ''e'' \<in> set (float_repr (Finite neg ds decpt)) \<longleftrightarrow> decpt \<le> - 4 \<or> 16 < decpt"
    using float_digits_e [OF ds(1), of decpt] by simp
  show ?thesis
    using chars e int_repr_chars [of i] by simp
qed


theorem number_rendering_witness:
  "valid_float (Finite False [9, 2] 0)
   \<and> encode True '','' '':'' (PFloat (Finite False [9, 2] 0)) = ''0.92''
   \<and> set ''0.92'' \<subseteq> set ''0123456789-+.e''
   \<and> CHR ''e'' \<notin> set ''0.92''
   \<and> encode True '','' '':'' (PInt 128) = ''128''"
proof -
  have h: "valid_float (Finite False [9, 2] 0)"
    by simp
  have r: "float_repr (Finite False [9, 2] 0) = ''0.92''" "int_repr 128 = ''128''"
    by (simp_all add: json_eval)
  note t = number_rendering [OF h, of 128, unfolded r]
  show ?thesis
    using h t by simp
qed

text \<open>
  C6 as stated fails: a claim whose performance is \<open>1e-05\<close> has that float in
  scientific notation in its canonical text.
\<close>

theorem scientific_notation_counterexample:
  \<open>valid_float (Finite False [1] (- 4))
   \<and> dumps_canonical (payload_of (claim0\<lparr>performance := Finite False [1] (- 4)\<rparr>))
       = Inr ''{"artifact_hash":"2cf24dba5fb0a30e26e83b2ac5b9e29e1b161e5c1fa7425e73043362938b9824","hyperparameters":{"activation":"relu","layers":[128,64],"lr":0.001},"miner_id":1,"nonce":42,"performance":1e-05,"task_id":"t1","timestamp":1700000000}''\<close>
  by (simp add: claim0_def payload_of_def hyper_example_def json_eval)

section \<open>The canonical text does not depend on insertion order\<close>

lemma sorted_items_related:
  fixes a b :: "('k :: linorder \<times> 'v) list"
  assumes da: "distinct (map fst a)" and db: "distinct (map fst b)"
    and len: "length a = length b"
    and rel: "\<And>k v. (k, v) \<in> set a \<Longrightarrow> \<exists>v'. map_of b k = Some v' \<and> R v v'"
  shows "list_all2 (\<lambda>p q. fst p = fst q \<and> R (snd p) (snd q)) (sort_key fst a) (sort_key fst b)"
proof -
  let ?sa = "sort_key fst a" and ?sb = "sort_key fst b"
  have sub: "set (map fst a) \<subseteq> set (map fst b)"
  proof
    fix k assume "k \<in> set (map fst a)"
    then obtain v where "(k, v) \<in> set a" by auto
    from rel [OF this] obtain v' where "map_of b k = Some v'" by blast
    then have "(k, v') \<in> set b" by (rule map_of_SomeD)
    then show "k \<in> set (map fst b)" by force
  qed
  have "card (set (map fst a)) = card (set (map fst b))"
    using distinct_card [OF da] distinct_card [OF db] len by simp
  with sub have keys: "set (map fst a) = set (map fst b)"
    by (simp add: card_subset_eq)
  have sa: "sorted (map fst ?sa)" "distinct (map fst ?sa)" "set (map fst ?sa) = set (map fst a)"
    using da by (simp_all add: distinct_map)
  have sb: "sorted (map fst ?sb)" "distinct (map fst ?sb)" "set (map fst ?sb) = set (map fst b)"
    using db by (simp_all add: distinct_map)
  have fsts: "map fst ?sa = map fst ?sb"
    using sa sb keys by (intro sorted_distinct_set_unique) simp_all
  show ?thesis
    unfolding list_all2_conv_all_nth
  proof (intro conjI allI impI)
    show "length ?sa = length ?sb" using len by simp
  next
    fix i assume i: "i < length ?sa"
    then have ib: "i < length ?sb" using len by simp
    have k: "fst (?sa ! i) = fst (?sb ! i)"
      using fsts i ib by (metis nth_map)
    have "?sa ! i \<in> set a"
      using i by (metis nth_mem set_sort)
    then have "(fst (?sa ! i), snd (?sa ! i)) \<in> set a" by simp
    from rel [OF this] obtain v' where v': "map_of b (fst (?sa ! i)) = Some v'"
      and r: "R (snd (?sa ! i)) v'" by blast
    have "?sb ! i \<in> set b"
      using ib by (metis nth_mem set_sort)
    then have "(fst (?sa ! i), snd (?sb ! i)) \<in> set b"
      using k by simp
    then have "map_of b (fst (?sa ! i)) = Some (snd (?sb ! i))"
      using db by simp
    with v' have "v' = snd (?sb ! i)" by simp
    with r show "R (snd (?sa ! i)) (snd (?sb ! i))" by simp
    show "fst (?sa ! i) = fst (?sb ! i)" by (rule k)
  qed
qed


lemma list_all2_same_text:
  assumes "list_all2 (\<lambda>x y. f x = g y \<and> p x = q y) xs ys"
  shows "map f xs = map g ys \<and> (\<forall>x \<in> set xs. p x) = (\<forall>y \<in> set ys. q y)"
  using assms by (induction rule: list_all2_induct) auto

lemma same_value_encode:
  assumes "same_value v v'" and "distinct_keys v" and "distinct_keys v'"
  shows "encode True isep ksep v = encode True isep ksep v' \<and> serializable v = serializable v'"
  using assms
proof (induction v arbitrary: v')
  case (PList xs)
  then obtain ys where v': "v' = PList ys"
    by (cases v') simp_all
  with PList.prems have all2: "list_all2 same_value xs ys"
    and dx: "\<forall>x \<in> set xs. distinct_keys x" and dy: "\<forall>y \<in> set ys. distinct_keys y"
    by simp_all
  have "list_all2 (\<lambda>x y. encode True isep ksep x = encode True isep ksep y
                        \<and> serializable x = serializable y) xs ys"
    unfolding list_all2_conv_all_nth
  proof (intro conjI allI impI)
    show "length xs = length ys" using all2 by (rule list_all2_lengthD)
  next
    fix i assume i: "i < length xs"
    then have "same_value (xs ! i) (ys ! i)" using all2 by (simp add: list_all2_nthD)
    moreover have "xs ! i \<in> set xs" "ys ! i \<in> set ys"
      using i list_all2_lengthD [OF all2] by simp_all
    ultimately have "encode True isep ksep (xs ! i) = encode True isep ksep (ys ! i)
        \<and> serializable (xs ! i) = serializable (ys ! i)"
      using PList.IH dx dy by blast
    then show "encode True isep ksep (xs ! i) = encode True isep ksep (ys ! i)"
      and "serializable (xs ! i) = serializable (ys ! i)" by simp_all
  qed
  from list_all2_same_text [OF this] show ?case
    by (simp add: v')
next
  case (PDict a)
  then obtain b where v': "v' = PDict b"
    by (cases v') simp_all
  let ?R = "\<lambda>x y. encode True isep ksep x = encode True isep ksep y
                  \<and> serializable x = serializable y"
  from PDict.prems v' have len: "length a = length b"
    and same: "\<forall>(k, v) \<in> set a. case map_of b k of None \<Rightarrow> False | Some w \<Rightarrow> same_value v w"
    and da: "distinct (map fst a)" and db: "distinct (map fst b)"
    and dka: "\<forall>(k, v) \<in> set a. distinct_keys v" and dkb: "\<forall>(k, v) \<in> set b. distinct_keys v"
    by simp_all
  have rel: "\<exists>w. map_of b k = Some w \<and> ?R v w" if kv: "(k, v) \<in> set a" for k v
  proof -
    from same kv obtain w where w: "map_of b k = Some w" and sv: "same_value v w"
      by (auto split: option.splits)
    from w have "(k, w) \<in> set b" by (rule map_of_SomeD)
    with dkb have "distinct_keys w" by auto
    moreover from dka kv have "distinct_keys v" by auto
    moreover have "v \<in> Basic_BNFs.snds (k, v)" by simp
    ultimately have "?R v w"
      using PDict.IH [OF kv _ sv] by blast
    with w show ?thesis by blast
  qed
  note srt = sorted_items_related [OF da db len rel]
  have "list_all2 (\<lambda>p q.
          (case p of (k, v) \<Rightarrow> encode_basestring_ascii k @ ksep @ encode True isep ksep v)
        = (case q of (k, v) \<Rightarrow> encode_basestring_ascii k @ ksep @ encode True isep ksep v)
        \<and> serializable (snd p) = serializable (snd q)) (sort_key fst a) (sort_key fst b)"
    using srt by (rule list_all2_mono) (auto simp: case_prod_unfold)
  from list_all2_same_text [OF this]
  show ?case
    by (simp add: v' case_prod_unfold)
qed (cases v'; simp)+


text \<open>
  C1. The canonical serialization that \<open>sign_payload\<close> computes is a function of
  the data alone: two payloads that hold the same data, whatever the order in which the keys
  of the payload dict and of the dicts nested in it were inserted, give the same result
  (the same bytes, or the same error), and so the same message to sign.
\<close>

theorem canonical_order_independent:
  assumes "same_value payload payload'"
    and "distinct_keys payload" and "distinct_keys payload'"
  shows "dumps_canonical payload = dumps_canonical payload'
       \<and> sign_payload sign key payload = sign_payload sign key payload'"
  using same_value_encode [OF assms, of "'',''" "'':''"]
  by (simp add: dumps_canonical_def dumps_def sign_payload_def)

theorem canonical_order_independent_witness:
  "same_value (payload_of claim0) claim0_reordered
   \<and> distinct_keys (payload_of claim0)
   \<and> distinct_keys claim0_reordered
   \<and> dumps_canonical (payload_of claim0) = dumps_canonical claim0_reordered"
proof -
  have s: "same_value (payload_of claim0) claim0_reordered"
    by (simp add: payload_of_def claim0_def claim0_reordered_def hyper_example_def str_def)
  have d: "distinct_keys (payload_of claim0)"
    by (simp add: payload_of_def claim0_def hyper_example_def str_def)
  have d': "distinct_keys claim0_reordered"
    by (simp add: claim0_reordered_def str_def)
  show ?thesis
    by (rule conjI [OF s conjI [OF d conjI [OF d'
          canonical_order_independent [OF s d d', THEN conjunct1]]]])
qed

end
